theory Spec2Isabelle
  imports Main "HOL-Library.Multiset" "HOL-Library.Char_ord" "HOL-Library.List_Lexorder"
begin

section \<open>The circuit breaker (shared/circuit-breaker.js)\<close>

text \<open>
  The class \<^verbatim>\<open>CircuitBreaker\<close> keeps a state, two counters, the time of the next
  attempt and its configuration. Times are the milliseconds of \<^verbatim>\<open>Date.now()\<close>;
  counters, thresholds and times are JavaScript numbers, modelled as integers.
  The wrapped \<^verbatim>\<open>request\<close> is a function of its arguments and of the world it acts
  on; it returns \<open>Inl\<close> where the JavaScript throws or rejects. The callback
  \<^verbatim>\<open>onStateChange\<close> is an observer: the model returns the list of the states it
  was called with.
\<close>

datatype cb_state = CLOSED | OPEN | HALF_OPEN

record breaker =
  state :: cb_state
  failureCount :: int
  successCount :: int
  nextAttempt :: int
  failureThreshold :: int
  successThreshold :: int
  timeout :: int
  monitoringPeriod :: int

record cb_options =
  opt_failureThreshold :: "int option"
  opt_successThreshold :: "int option"
  opt_timeout :: "int option"
  opt_monitoringPeriod :: "int option"

text \<open>\<^verbatim>\<open>options.x || d\<close>: a missing option and the number 0 both give the default.\<close>

definition or_default :: "int option \<Rightarrow> int \<Rightarrow> int" where
  "or_default v d = (case v of None \<Rightarrow> d | Some n \<Rightarrow> if n = 0 then d else n)"

definition no_options :: cb_options where
  "no_options = \<lparr>opt_failureThreshold = None, opt_successThreshold = None,
     opt_timeout = None, opt_monitoringPeriod = None\<rparr>"

text \<open>The constructor, called at time \<open>now\<close>.\<close>

definition new_CircuitBreaker :: "cb_options \<Rightarrow> int \<Rightarrow> breaker" where
  "new_CircuitBreaker options now =
     \<lparr>state = CLOSED, failureCount = 0, successCount = 0, nextAttempt = now,
      failureThreshold = or_default (opt_failureThreshold options) 5,
      successThreshold = or_default (opt_successThreshold options) 2,
      timeout = or_default (opt_timeout options) 60000,
      monitoringPeriod = or_default (opt_monitoringPeriod options) 10000\<rparr>"

datatype 'e cb_error = CircuitOpen | RequestError 'e

text \<open>
  \<^verbatim>\<open>onSuccess\<close> and \<^verbatim>\<open>onFailure\<close> return the new breaker and the states passed to
  \<^verbatim>\<open>onStateChange\<close>. \<^verbatim>\<open>onFailure\<close> reads the clock (\<open>now\<close>) and rethrows the
  error of the request, which \<open>call\<close> below returns as \<open>RequestError\<close>.
\<close>

definition onSuccess :: "breaker \<Rightarrow> breaker \<times> cb_state list" where
  "onSuccess cb =
     (let cb1 = cb\<lparr>failureCount := 0\<rparr> in
      if state cb1 = HALF_OPEN then
        (let cb2 = cb1\<lparr>successCount := successCount cb1 + 1\<rparr> in
         if successCount cb2 \<ge> successThreshold cb2
         then (cb2\<lparr>state := CLOSED, successCount := 0\<rparr>, [CLOSED])
         else (cb2, []))
      else (cb1, []))"

definition onFailure :: "breaker \<Rightarrow> int \<Rightarrow> breaker \<times> cb_state list" where
  "onFailure cb now =
     (let cb1 = cb\<lparr>failureCount := failureCount cb + 1\<rparr> in
      if state cb1 = HALF_OPEN \<or> failureCount cb1 \<ge> failureThreshold cb1
      then (cb1\<lparr>state := OPEN, nextAttempt := now + timeout cb1\<rparr>, [OPEN])
      else (cb1, []))"

text \<open>
  The result of one \<^verbatim>\<open>call\<close>: what the caller gets, the breaker afterwards, the
  states announced through \<^verbatim>\<open>onStateChange\<close> in order, and the world afterwards.
\<close>

record ('e, 'r, 'w) call_result =
  returned :: "'e cb_error + 'r"
  breaker_after :: breaker
  announced :: "cb_state list"
  world_after :: 'w

text \<open>
  \<^verbatim>\<open>call(...args)\<close> entered at time \<open>now\<close>; \<open>later\<close> is the clock when the request has
  failed and \<^verbatim>\<open>onFailure\<close> runs.
\<close>

definition call ::
  "breaker \<Rightarrow> ('a \<Rightarrow> 'w \<Rightarrow> ('e + 'r) \<times> 'w) \<Rightarrow> 'a \<Rightarrow> int \<Rightarrow> int \<Rightarrow> 'w \<Rightarrow> ('e, 'r, 'w) call_result" where
  "call cb request args now later w =
     (if state cb = OPEN \<and> now < nextAttempt cb
      then \<lparr>returned = Inl CircuitOpen, breaker_after = cb, announced = [], world_after = w\<rparr>
      else
        (let (cb1, ann1) =
               (if state cb = OPEN
                then (cb\<lparr>state := HALF_OPEN, successCount := 0\<rparr>, [HALF_OPEN])
                else (cb, []))
         in case request args w of
              (Inr result, w') \<Rightarrow>
                (let (cb2, ann2) = onSuccess cb1
                 in \<lparr>returned = Inr result, breaker_after = cb2,
                      announced = ann1 @ ann2, world_after = w'\<rparr>)
            | (Inl err, w') \<Rightarrow>
                (let (cb2, ann2) = onFailure cb1 later
                 in \<lparr>returned = Inl (RequestError err), breaker_after = cb2,
                      announced = ann1 @ ann2, world_after = w'\<rparr>)))"

definition getStats :: "breaker \<Rightarrow> cb_state \<times> int \<times> int \<times> int" where
  "getStats cb = (state cb, failureCount cb, successCount cb, nextAttempt cb)"

definition reset :: "breaker \<Rightarrow> int \<Rightarrow> breaker \<times> cb_state list" where
  "reset cb now =
     (cb\<lparr>state := CLOSED, failureCount := 0, successCount := 0, nextAttempt := now\<rparr>, [CLOSED])"

text \<open>
  A run of calls, one after the other: each entry holds the arguments, the time of entry
  and the time at which a failure is recorded. The run returns what each call returned
  and the result of the last call.
\<close>

fun calls ::
  "breaker \<Rightarrow> ('a \<Rightarrow> 'w \<Rightarrow> ('e + 'r) \<times> 'w) \<Rightarrow> ('a \<times> int \<times> int) list \<Rightarrow> 'w
     \<Rightarrow> ('e cb_error + 'r) list \<times> breaker \<times> 'w" where
  "calls cb request [] w = ([], cb, w)"
| "calls cb request ((args, now, later) # rest) w =
     (let r = call cb request args now later w;
          (rs, cb', w') = calls (breaker_after r) request rest (world_after r)
      in (returned r # rs, cb', w'))"

definition is_failure :: "'e cb_error + 'r \<Rightarrow> bool" where
  "is_failure r = (case r of Inl (RequestError e) \<Rightarrow> True | _ \<Rightarrow> False)"

definition is_success :: "'e cb_error + 'r \<Rightarrow> bool" where
  "is_success r = (case r of Inr v \<Rightarrow> True | _ \<Rightarrow> False)"

section \<open>JavaScript values\<close>

text \<open>
  Payloads, metadata and snapshots are JSON documents handled as JavaScript values. An
  object is the list of its properties in insertion order. Numbers are restricted to the
  integers (with \<open>JNaN\<close> for the result of arithmetic on a non-number); fractions and
  rounding are outside the model. The operations are the ones the event store uses:
  truthiness (\<^verbatim>\<open>||\<close>, \<^verbatim>\<open>if (x)\<close>), property reads, template literals
  (\<open>js_toString\<close>), \<^verbatim>\<open>+\<close>, object and array spread, and the round trip through
  \<^verbatim>\<open>JSON.stringify\<close> and a JSONB column (\<open>jsonb\<close>), which drops properties
  holding \<^verbatim>\<open>undefined\<close> and turns \<^verbatim>\<open>NaN\<close> into \<^verbatim>\<open>null\<close>; the order in which JSONB
  keeps the keys of an object is not modelled.
\<close>

datatype json =
    JUndefined | JNull | JNaN | JBool bool | JNum int | JStr string
  | JArr "json list" | JObj "(string \<times> json) list"

datatype error =
    TypeError | Unavailable | UniqueViolation | NotNullViolation | ValueTooLong
  | NoArbiterIndex | NotConnected

fun truthy :: "json \<Rightarrow> bool" where
  "truthy JUndefined = False"
| "truthy JNull = False"
| "truthy JNaN = False"
| "truthy (JBool b) = b"
| "truthy (JNum n) = (n \<noteq> 0)"
| "truthy (JStr s) = (s \<noteq> [])"
| "truthy (JArr xs) = True"
| "truthy (JObj kvs) = True"

definition js_or :: "json \<Rightarrow> json \<Rightarrow> json" where
  "js_or a b = (if truthy a then a else b)"

definition nullish :: "json \<Rightarrow> bool" where
  "nullish v = (v = JUndefined \<or> v = JNull)"

text \<open>
  \<open>field v k\<close> is the read \<^verbatim>\<open>v.k\<close> of a named property where \<open>v\<close> is neither
  \<^verbatim>\<open>null\<close> nor \<^verbatim>\<open>undefined\<close>, and the read \<^verbatim>\<open>v?.k\<close> for every \<open>v\<close>. A plain
  read on \<^verbatim>\<open>null\<close> or \<^verbatim>\<open>undefined\<close> throws a TypeError: the callers test \<open>nullish\<close>
  first. The names the code reads are plain data properties (\<^verbatim>\<open>userId\<close>,
  \<^verbatim>\<open>timestamp\<close>, \<^verbatim>\<open>loginCount\<close>, ...), none a built-in property of strings or arrays,
  so a value that is not an object has none of them.
\<close>

fun field :: "json \<Rightarrow> string \<Rightarrow> json" where
  "field (JObj kvs) k = (case map_of kvs k of Some v \<Rightarrow> v | None \<Rightarrow> JUndefined)"
| "field v k = JUndefined"

fun digits :: "nat \<Rightarrow> string" where
  "digits n = (if n < 10 then [''0123456789'' ! n] else digits (n div 10) @ [''0123456789'' ! (n mod 10)])"

declare digits.simps [simp del]

definition show_int :: "int \<Rightarrow> string" where
  "show_int i = (if i < 0 then CHR ''-'' # digits (nat (- i)) else digits (nat i))"

fun join :: "string \<Rightarrow> string list \<Rightarrow> string" where
  "join sep [] = []"
| "join sep [x] = x"
| "join sep (x # y # ys) = x @ sep @ join sep (y # ys)"

fun js_toString :: "json \<Rightarrow> string" where
  "js_toString JUndefined = ''undefined''"
| "js_toString JNull = ''null''"
| "js_toString JNaN = ''NaN''"
| "js_toString (JBool b) = (if b then ''true'' else ''false'')"
| "js_toString (JNum n) = show_int n"
| "js_toString (JStr s) = s"
| "js_toString (JArr xs) =
     join '','' (map (\<lambda>x. if x = JUndefined \<or> x = JNull then [] else js_toString x) xs)"
| "js_toString (JObj kvs) = ''[object Object]''"

fun toPrimitive :: "json \<Rightarrow> json" where
  "toPrimitive (JArr xs) = JStr (js_toString (JArr xs))"
| "toPrimitive (JObj kvs) = JStr (js_toString (JObj kvs))"
| "toPrimitive v = v"

fun toNumber :: "json \<Rightarrow> int option" where
  "toNumber JNull = Some 0"
| "toNumber (JBool b) = Some (if b then 1 else 0)"
| "toNumber (JNum n) = Some n"
| "toNumber v = None"

fun is_string :: "json \<Rightarrow> bool" where
  "is_string (JStr s) = True"
| "is_string v = False"

definition js_plus :: "json \<Rightarrow> json \<Rightarrow> json" where
  "js_plus a b =
     (let p = toPrimitive a; q = toPrimitive b in
      if is_string p \<or> is_string q then JStr (js_toString p @ js_toString q)
      else (case (toNumber p, toNumber q) of
              (Some m, Some n) \<Rightarrow> JNum (m + n)
            | _ \<Rightarrow> JNaN))"

text \<open>
  \<open>spread v\<close> lists the properties copied by \<^verbatim>\<open>{...v}\<close>; \<open>object base props\<close> is the
  object literal \<^verbatim>\<open>{...base, k1: v1, k2: v2}\<close>: a property that exists keeps its place
  and takes the new value, a new one is added at the end. \<open>iterate v\<close> lists the elements
  copied by \<^verbatim>\<open>[...v]\<close>, a TypeError where \<open>v\<close> is not iterable.
\<close>

fun spread :: "json \<Rightarrow> (string \<times> json) list" where
  "spread (JObj kvs) = kvs"
| "spread (JArr xs) = zip (map digits [0 ..< length xs]) xs"
| "spread (JStr s) = zip (map digits [0 ..< length s]) (map (\<lambda>c. JStr [c]) s)"
| "spread v = []"

fun set_prop :: "(string \<times> json) list \<Rightarrow> string \<Rightarrow> json \<Rightarrow> (string \<times> json) list" where
  "set_prop [] k v = [(k, v)]"
| "set_prop ((k', v') # kvs) k v =
     (if k' = k then (k, v) # kvs else (k', v') # set_prop kvs k v)"

fun iterate :: "json \<Rightarrow> error + json list" where
  "iterate (JArr xs) = Inr xs"
| "iterate (JStr s) = Inr (map (\<lambda>c. JStr [c]) s)"
| "iterate v = Inl TypeError"

definition object :: "(string \<times> json) list \<Rightarrow> (string \<times> json) list \<Rightarrow> json" where
  "object base props = JObj (foldl (\<lambda>kvs (k, v). set_prop kvs k v) base props)"

fun jsonb :: "json \<Rightarrow> json" where
  "jsonb (JObj kvs) = JObj (map (\<lambda>(k, v). (k, jsonb v)) (filter (\<lambda>(k, v). v \<noteq> JUndefined) kvs))"
| "jsonb (JArr xs) = JArr (map (\<lambda>x. if x = JUndefined then JNull else jsonb x) xs)"
| "jsonb JNaN = JNull"
| "jsonb v = v"


section \<open>The event store (services/event-store/index.js)\<close>

text \<open>
  The rows of the tables \<^verbatim>\<open>events\<close> and \<^verbatim>\<open>projections\<close>, column by column. A table
  is the list of its rows in the order they were inserted; an UPDATE changes a row in
  place.
\<close>

record event_row =
  e_id :: string
  e_aggregate_id :: string
  e_aggregate_type :: string
  e_event_type :: string
  e_event_version :: int
  e_event_data :: json
  e_metadata :: json
  e_timestamp :: int
  e_sequence_number :: int

record projection_row =
  p_id :: string
  p_projection_name :: string
  p_aggregate_id :: string
  p_data :: json
  p_version :: int
  p_last_event_id :: string
  p_updated_at :: int

text \<open>
  What \<^verbatim>\<open>createTables\<close> declares and the statements below depend on: which unique
  indexes exist besides the primary keys \<^verbatim>\<open>events(id)\<close> and \<^verbatim>\<open>projections(id)\<close>.
  The DDL of \<^verbatim>\<open>createTables\<close> has no UNIQUE constraint on either table, and its four
  indexes (\<^verbatim>\<open>idx_events_aggregate\<close> on (aggregate_id, aggregate_type),
  \<^verbatim>\<open>idx_projections_name_aggregate\<close> on (projection_name, aggregate_id), and two
  more on events) are plain \<^verbatim>\<open>CREATE INDEX\<close>, not unique. So neither
  (aggregate_id, aggregate_type, event_version) nor (projection_name, aggregate_id) is
  unique in the tables as created. The operations take the schema as an argument;
  \<open>createTables\<close> is the schema of the code.
\<close>

record schema =
  unique_events_version :: bool
  unique_projections_key :: bool

definition createTables :: schema where
  "createTables = \<lparr>unique_events_version = False, unique_projections_key = False\<rparr>"

text \<open>
  The state: both tables, the counter behind the SERIAL column \<^verbatim>\<open>sequence_number\<close>,
  and the messages published on the broker. Lines written to the console are not part
  of the state.
\<close>

record store =
  events :: "event_row list"
  projections :: "projection_row list"
  next_sequence :: int
  published :: "(string \<times> json) list"

definition empty_store :: store where
  "empty_store = \<lparr>events = [], projections = [], next_sequence = 1, published = []\<rparr>"

text \<open>
  What one handled message reads from outside: whether the database and the broker
  answer, the identifiers \<^verbatim>\<open>uuidv4()\<close> returns (one for the event, one for each
  projection row), the clock of the process (\<^verbatim>\<open>new Date().toISOString()\<close>,
  \<^verbatim>\<open>new Date().toDateString()\<close>, and \<^verbatim>\<open>new Date(x).toDateString()\<close> as a function of
  \<open>x\<close>) and the clock of the database (\<^verbatim>\<open>CURRENT_TIMESTAMP\<close>).
\<close>

record env =
  db_up :: bool
  broker_up :: bool
  uuid_event :: string
  uuid_projection :: "string \<Rightarrow> string"
  now_iso :: string
  today :: string
  dateString :: "json \<Rightarrow> string"
  db_now :: int

text \<open>
  \<^verbatim>\<open>extractAggregateId\<close>: each known event type has a prefix and the payload property
  appended to it (\<^verbatim>\<open>`user-${data.userId}`\<close>); reading the property of a \<^verbatim>\<open>null\<close> or
  \<^verbatim>\<open>undefined\<close> payload throws. Other event types give \<^verbatim>\<open>'unknown'\<close> and
  \<^verbatim>\<open>'Unknown'\<close>. (Event types that name an inherited member of a JavaScript object,
  such as \<^verbatim>\<open>constructor\<close>, are outside the model; the service subscribes to the eleven
  types of the tables only.)
\<close>

definition extractors :: "(string \<times> string \<times> string) list" where
  "extractors =
    [(''user.created'', ''user-'', ''userId''),
     (''user.login'', ''user-'', ''userId''),
     (''order.created'', ''order-'', ''orderId''),
     (''order.status_changed'', ''order-'', ''orderId''),
     (''order.cancelled'', ''order-'', ''orderId''),
     (''payment.confirmed'', ''payment-'', ''orderId''),
     (''payment.failed'', ''payment-'', ''orderId''),
     (''inventory.reserve'', ''product-'', ''productId''),
     (''inventory.restore'', ''product-'', ''productId''),
     (''notification.sent'', ''notification-'', ''notificationId''),
     (''notification.failed'', ''notification-'', ''notificationId'')]"

definition extractAggregateId :: "string \<Rightarrow> json \<Rightarrow> error + string" where
  "extractAggregateId eventType eventData =
     (case map_of extractors eventType of
        None \<Rightarrow> Inr ''unknown''
      | Some (prefix, key) \<Rightarrow>
          if nullish eventData then Inl TypeError
          else Inr (prefix @ js_toString (field eventData key)))"

definition typeMap :: "(string \<times> string) list" where
  "typeMap =
    [(''user.created'', ''User''),
     (''user.login'', ''User''),
     (''order.created'', ''Order''),
     (''order.status_changed'', ''Order''),
     (''order.cancelled'', ''Order''),
     (''payment.confirmed'', ''Payment''),
     (''payment.failed'', ''Payment''),
     (''inventory.reserve'', ''Product''),
     (''inventory.restore'', ''Product''),
     (''notification.sent'', ''Notification''),
     (''notification.failed'', ''Notification'')]"

definition extractAggregateType :: "string \<Rightarrow> string" where
  "extractAggregateType eventType =
     (case map_of typeMap eventType of None \<Rightarrow> ''Unknown'' | Some t \<Rightarrow> t)"

text \<open>
  \<^verbatim>\<open>getProjection\<close>: the data of the first row with this projection name and aggregate
  id, \<^verbatim>\<open>null\<close> when there is none or when the query fails (the error is caught).
\<close>

definition getProjection :: "env \<Rightarrow> store \<Rightarrow> string \<Rightarrow> string \<Rightarrow> json" where
  "getProjection env s projectionName aggregateId =
     (if \<not> db_up env then JNull
      else (case filter (\<lambda>r. p_projection_name r = projectionName \<and> p_aggregate_id r = aggregateId)
                   (projections s) of
              [] \<Rightarrow> JNull
            | r # rows \<Rightarrow> p_data r))"

definition has_key :: "string \<Rightarrow> string \<Rightarrow> projection_row \<Rightarrow> bool" where
  "has_key projectionName aggregateId r =
     (p_projection_name r = projectionName \<and> p_aggregate_id r = aggregateId)"

text \<open>
  The statement of \<^verbatim>\<open>saveProjection\<close>,
  \<^verbatim>\<open>INSERT INTO projections (...) VALUES ($1, $2, $3, $4, 1, $5)
  ON CONFLICT (projection_name, aggregate_id) DO UPDATE SET data = $4,
  version = projections.version + 1, last_event_id = $5, updated_at = CURRENT_TIMESTAMP\<close>.
  PostgreSQL takes the arbiter of \<^verbatim>\<open>ON CONFLICT (projection_name, aggregate_id)\<close> from the
  unique indexes of the table: when none is on exactly these columns the statement is
  rejected (``there is no unique or exclusion constraint matching the ON CONFLICT
  specification'', SQLSTATE 42P10) whatever the rows are. With such an index, a row with
  the same key is updated in place and its version incremented; otherwise a row with
  version 1 is inserted, subject to the primary key on \<^verbatim>\<open>id\<close>. Identifiers longer than
  their VARCHAR columns are rejected.
\<close>

definition upsert_projection ::
  "schema \<Rightarrow> env \<Rightarrow> store \<Rightarrow> string \<Rightarrow> string \<Rightarrow> json \<Rightarrow> string \<Rightarrow> error + store" where
  "upsert_projection sch env s projectionName aggregateId data eventId =
     (if \<not> db_up env then Inl Unavailable
      else if \<not> unique_projections_key sch then Inl NoArbiterIndex
      else if jsonb data = JUndefined then Inl NotNullViolation
      else if length projectionName > 100 \<or> length aggregateId > 255 then Inl ValueTooLong
      else if list_ex (has_key projectionName aggregateId) (projections s) then
        Inr (s\<lparr>projections :=
               map (\<lambda>r. if has_key projectionName aggregateId r
                         then r\<lparr>p_data := jsonb data, p_version := p_version r + 1,
                                p_last_event_id := eventId, p_updated_at := db_now env\<rparr>
                         else r)
                   (projections s)\<rparr>)
      else if uuid_projection env projectionName \<in> set (map p_id (projections s))
        then Inl UniqueViolation
      else
        Inr (s\<lparr>projections := projections s @
               [\<lparr>p_id = uuid_projection env projectionName, p_projection_name = projectionName,
                 p_aggregate_id = aggregateId, p_data = jsonb data, p_version = 1,
                 p_last_event_id = eventId, p_updated_at = db_now env\<rparr>]\<rparr>))"

text \<open>\<^verbatim>\<open>saveProjection\<close> catches every error of its statement: the store is then unchanged.\<close>

definition saveProjection ::
  "schema \<Rightarrow> env \<Rightarrow> store \<Rightarrow> string \<Rightarrow> string \<Rightarrow> json \<Rightarrow> string \<Rightarrow> store" where
  "saveProjection sch env s projectionName aggregateId data eventId =
     (case upsert_projection sch env s projectionName aggregateId data eventId of
        Inl error \<Rightarrow> s
      | Inr s' \<Rightarrow> s')"

text \<open>
  A registered projection. In the code \<^verbatim>\<open>project(eventType, eventData, aggregateId)\<close>
  is an async function of the service: it queries the projections table through
  \<^verbatim>\<open>getProjection\<close> and reads the clock, and it returns the new snapshot,
  \<^verbatim>\<open>undefined\<close> for an event type it has no case for, or throws.
\<close>

record projection =
  name :: string
  eventTypes :: "string list"
  project :: "env \<Rightarrow> store \<Rightarrow> string \<Rightarrow> json \<Rightarrow> string \<Rightarrow> error + json"

definition user_summary :: projection where
  "user_summary =
    \<lparr>name = ''user-summary'',
     eventTypes = [''user.created'', ''user.login''],
     project = (\<lambda>env s eventType eventData aggregateId.
       let existing = getProjection env s ''user-summary'' aggregateId in
       if eventType = ''user.created'' then
         (if nullish eventData then Inl TypeError
          else Inr (JObj
            [(''userId'', field eventData ''userId''),
             (''email'', field eventData ''email''),
             (''firstName'', field eventData ''firstName''),
             (''lastName'', field eventData ''lastName''),
             (''createdAt'', js_or (field eventData ''timestamp'') (JStr (now_iso env))),
             (''lastLogin'', JNull),
             (''loginCount'', JNum 0)]))
       else if eventType = ''user.login'' then
         (if nullish eventData then Inl TypeError
          else Inr (object (spread existing)
            [(''lastLogin'', field eventData ''timestamp''),
             (''loginCount'', js_plus (js_or (field existing ''loginCount'') (JNum 0)) (JNum 1))]))
       else Inr JUndefined)\<rparr>"

definition order_summary :: projection where
  "order_summary =
    \<lparr>name = ''order-summary'',
     eventTypes = [''order.created'', ''order.status_changed'', ''order.cancelled''],
     project = (\<lambda>env s eventType eventData aggregateId.
       let existing = getProjection env s ''order-summary'' aggregateId in
       if eventType = ''order.created'' then
         (if nullish eventData then Inl TypeError
          else Inr (JObj
            [(''orderId'', field eventData ''orderId''),
             (''userId'', field eventData ''userId''),
             (''totalAmount'', field eventData ''totalAmount''),
             (''status'', JStr ''pending''),
             (''items'', field eventData ''items''),
             (''createdAt'', field eventData ''timestamp''),
             (''statusHistory'', JArr [JObj
                [(''status'', JStr ''pending''),
                 (''timestamp'', field eventData ''timestamp'')]])]))
       else if eventType = ''order.status_changed'' then
         (if nullish eventData then Inl TypeError
          else (case iterate (js_or (field existing ''statusHistory'') (JArr [])) of
                  Inl error \<Rightarrow> Inl error
                | Inr history \<Rightarrow> Inr (object (spread existing)
                    [(''status'', field eventData ''status''),
                     (''statusHistory'', JArr (history @
                        [JObj [(''status'', field eventData ''status''),
                               (''timestamp'', field eventData ''timestamp'')]]))])))
       else if eventType = ''order.cancelled'' then
         (if nullish eventData then Inl TypeError
          else (case iterate (js_or (field existing ''statusHistory'') (JArr [])) of
                  Inl error \<Rightarrow> Inl error
                | Inr history \<Rightarrow> Inr (object (spread existing)
                    [(''status'', JStr ''cancelled''),
                     (''cancelledAt'', field eventData ''timestamp''),
                     (''statusHistory'', JArr (history @
                        [JObj [(''status'', JStr ''cancelled''),
                               (''timestamp'', field eventData ''timestamp'')]]))])))
       else Inr JUndefined)\<rparr>"

definition analytics_initial :: "env \<Rightarrow> json" where
  "analytics_initial env = JObj
     [(''totalUsers'', JNum 0), (''totalOrders'', JNum 0), (''totalRevenue'', JNum 0),
      (''ordersToday'', JNum 0), (''revenueToday'', JNum 0),
      (''lastUpdated'', JStr (now_iso env))]"

definition analytics :: projection where
  "analytics =
    \<lparr>name = ''analytics'',
     eventTypes = [''order.created'', ''payment.confirmed'', ''user.created''],
     project = (\<lambda>env s eventType eventData aggregateId.
       let existing = js_or (getProjection env s ''analytics'' ''global'') (analytics_initial env) in
       if nullish eventData then Inl TypeError
       else
         let isToday = (dateString env (field eventData ''timestamp'') = today env) in
         if eventType = ''user.created'' then
           Inr (object (spread existing)
             [(''totalUsers'', js_plus (field existing ''totalUsers'') (JNum 1)),
              (''lastUpdated'', JStr (now_iso env))])
         else if eventType = ''order.created'' then
           Inr (object (spread existing)
             [(''totalOrders'', js_plus (field existing ''totalOrders'') (JNum 1)),
              (''ordersToday'', if isToday then js_plus (field existing ''ordersToday'') (JNum 1)
                                else field existing ''ordersToday''),
              (''lastUpdated'', JStr (now_iso env))])
         else if eventType = ''payment.confirmed'' then
           Inr (object (spread existing)
             [(''totalRevenue'', js_plus (field existing ''totalRevenue'') (field eventData ''amount'')),
              (''revenueToday'', if isToday then js_plus (field existing ''revenueToday'') (field eventData ''amount'')
                                 else field existing ''revenueToday''),
              (''lastUpdated'', JStr (now_iso env))])
         else Inr JUndefined)\<rparr>"

definition setupProjections :: "(string \<times> projection) list" where
  "setupProjections =
     [(''user-summary'', user_summary), (''order-summary'', order_summary), (''analytics'', analytics)]"


text \<open>
  \<^verbatim>\<open>updateProjections\<close> goes through the registry in order. For a projection that lists
  the event type it runs \<^verbatim>\<open>project\<close> and, when the result is truthy, saves it under the
  registry key and the aggregate id of the event; an error of \<^verbatim>\<open>project\<close> is caught and
  the loop goes on.
\<close>

fun updateProjections ::
  "schema \<Rightarrow> env \<Rightarrow> (string \<times> projection) list \<Rightarrow> string \<Rightarrow> json \<Rightarrow> string \<Rightarrow> string \<Rightarrow> string
     \<Rightarrow> store \<Rightarrow> store" where
  "updateProjections sch env [] eventType eventData eventId aggregateId aggregateType s = s"
| "updateProjections sch env ((projectionName, projection) # rest)
      eventType eventData eventId aggregateId aggregateType s =
     updateProjections sch env rest eventType eventData eventId aggregateId aggregateType
       (if eventType \<in> set (eventTypes projection) then
          (case project projection env s eventType eventData aggregateId of
             Inl error \<Rightarrow> s
           | Inr projectedData \<Rightarrow>
               if truthy projectedData
               then saveProjection sch env s projectionName aggregateId projectedData eventId
               else s)
        else s)"

text \<open>\<^verbatim>\<open>SELECT COALESCE(MAX(event_version), 0) ... WHERE aggregate_id = $1 AND aggregate_type = $2\<close>.\<close>

definition select_max_version :: "store \<Rightarrow> string \<Rightarrow> string \<Rightarrow> int" where
  "select_max_version s aggregateId aggregateType =
     (case map e_event_version
             (filter (\<lambda>e. e_aggregate_id e = aggregateId \<and> e_aggregate_type e = aggregateType)
                (events s)) of
        [] \<Rightarrow> 0
      | v # vs \<Rightarrow> fold max vs v)"

text \<open>
  The INSERT into \<^verbatim>\<open>events\<close>: rejected when the database does not answer, when an
  identifier does not fit its VARCHAR column, when the payload is missing
  (\<^verbatim>\<open>JSON.stringify(undefined)\<close> is sent as NULL into a NOT NULL column), when the id
  exists (primary key), and, only in a schema with that unique index, when the
  (aggregate_id, aggregate_type, event_version) exists. The accepted row gets the
  database's timestamp and the next sequence number.
\<close>

definition insert_event :: "schema \<Rightarrow> env \<Rightarrow> store \<Rightarrow> event_row \<Rightarrow> error + store" where
  "insert_event sch env s row =
     (if \<not> db_up env then Inl Unavailable
      else if length (e_aggregate_id row) > 255 \<or> length (e_aggregate_type row) > 100
              \<or> length (e_event_type row) > 100 then Inl ValueTooLong
      else if e_event_data row = JUndefined then Inl NotNullViolation
      else if e_id row \<in> set (map e_id (events s)) then Inl UniqueViolation
      else if unique_events_version sch \<and>
              (e_aggregate_id row, e_aggregate_type row, e_event_version row)
                \<in> set (map (\<lambda>e. (e_aggregate_id e, e_aggregate_type e, e_event_version e)) (events s))
        then Inl UniqueViolation
      else Inr (s\<lparr>events := events s @
                    [row\<lparr>e_timestamp := db_now env, e_sequence_number := next_sequence s\<rparr>],
                  next_sequence := next_sequence s + 1\<rparr>))"

text \<open>
  \<^verbatim>\<open>{...metadata, source: 'message-broker', correlationId: metadata.id}\<close>, with the
  default \<^verbatim>\<open>metadata = {}\<close> for a missing argument.
\<close>

definition event_metadata :: "json \<Rightarrow> error + json" where
  "event_metadata metadata =
     (let m = (if metadata = JUndefined then JObj [] else metadata) in
      if m = JNull then Inl TypeError
      else Inr (object (spread m)
             [(''source'', JStr ''message-broker''), (''correlationId'', field m ''id'')]))"

definition publish :: "env \<Rightarrow> store \<Rightarrow> string \<Rightarrow> json \<Rightarrow> error + store" where
  "publish env s channel data =
     (if \<not> broker_up env then Inl NotConnected
      else Inr (s\<lparr>published := published s @ [(channel, data)]\<rparr>))"

text \<open>
  \<^verbatim>\<open>storeEvent\<close> awaits the SELECT of the current version and then the INSERT; other
  handlers run between the two. \<open>prepareEvent\<close> is the part up to the INSERT (it yields
  the row about to be inserted, or the error thrown), \<open>commitEvent\<close> the part from the
  INSERT on, and \<open>storeEvent\<close> is one after the other with nothing in between. The whole
  body is inside \<^verbatim>\<open>try { ... } catch (error) { console.error(...) }\<close>: an error ends
  the handler, keeps what was written before it, and is not passed to the caller, so the
  result is only the store.
\<close>

definition prepareEvent :: "env \<Rightarrow> store \<Rightarrow> string \<Rightarrow> json \<Rightarrow> json \<Rightarrow> error + event_row" where
  "prepareEvent env s eventType eventData metadata =
     (case extractAggregateId eventType eventData of
        Inl error \<Rightarrow> Inl error
      | Inr aggregateId \<Rightarrow>
          (let aggregateType = extractAggregateType eventType in
           if \<not> db_up env then Inl Unavailable
           else
             (let nextVersion = select_max_version s aggregateId aggregateType + 1 in
              case event_metadata metadata of
                Inl error \<Rightarrow> Inl error
              | Inr md \<Rightarrow>
                  Inr \<lparr>e_id = uuid_event env, e_aggregate_id = aggregateId,
                       e_aggregate_type = aggregateType, e_event_type = eventType,
                       e_event_version = nextVersion, e_event_data = jsonb eventData,
                       e_metadata = jsonb md, e_timestamp = 0, e_sequence_number = 0\<rparr>)))"

definition commitEvent ::
  "schema \<Rightarrow> env \<Rightarrow> (string \<times> projection) list \<Rightarrow> store \<Rightarrow> json \<Rightarrow> event_row \<Rightarrow> store" where
  "commitEvent sch env registry s eventData row =
     (case insert_event sch env s row of
        Inl error \<Rightarrow> s
      | Inr s1 \<Rightarrow>
          (let s2 = updateProjections sch env registry (e_event_type row) eventData (e_id row)
                      (e_aggregate_id row) (e_aggregate_type row) s1
           in case publish env s2 ''event.stored''
                     (JObj [(''eventId'', JStr (e_id row)), (''eventType'', JStr (e_event_type row)),
                            (''aggregateId'', JStr (e_aggregate_id row)),
                            (''aggregateType'', JStr (e_aggregate_type row)),
                            (''version'', JNum (e_event_version row))]) of
                Inl error \<Rightarrow> s2
              | Inr s3 \<Rightarrow> s3))"

definition storeEvent ::
  "schema \<Rightarrow> env \<Rightarrow> (string \<times> projection) list \<Rightarrow> store \<Rightarrow> string \<Rightarrow> json \<Rightarrow> json \<Rightarrow> store" where
  "storeEvent sch env registry s eventType eventData metadata =
     (case prepareEvent env s eventType eventData metadata of
        Inl error \<Rightarrow> s
      | Inr row \<Rightarrow> commitEvent sch env registry s eventData row)"

text \<open>Messages handled one after the other, each with its own readings of the environment.\<close>

fun storeEvents ::
  "schema \<Rightarrow> (string \<times> projection) list \<Rightarrow> store \<Rightarrow> (env \<times> string \<times> json \<times> json) list \<Rightarrow> store" where
  "storeEvents sch registry s [] = s"
| "storeEvents sch registry s ((env, eventType, eventData, metadata) # rest) =
     storeEvents sch registry (storeEvent sch env registry s eventType eventData metadata) rest"

subsection \<open>The routes\<close>


text \<open>
  \<^verbatim>\<open>POST /projections/:projectionName/replay\<close>: the events from \<open>fromSequence\<close> on whose
  type the projection lists, by ascending sequence number, are projected and saved one by
  one; an error of \<^verbatim>\<open>project\<close> ends the loop with status 500. \<open>envs\<close> gives the
  readings of the environment at each event.
\<close>

datatype replay_response = ProjectionNotFound | ReplayCompleted nat | InternalServerError

fun replay_events ::
  "schema \<Rightarrow> (event_row \<Rightarrow> env) \<Rightarrow> string \<Rightarrow> projection \<Rightarrow> event_row list \<Rightarrow> nat \<Rightarrow> store
     \<Rightarrow> (error + nat) \<times> store" where
  "replay_events sch envs projectionName projection [] replayedCount s = (Inr replayedCount, s)"
| "replay_events sch envs projectionName projection (event # rest) replayedCount s =
     (case project projection (envs event) s (e_event_type event) (e_event_data event)
             (e_aggregate_id event) of
        Inl error \<Rightarrow> (Inl error, s)
      | Inr projectedData \<Rightarrow>
          if truthy projectedData
          then replay_events sch envs projectionName projection rest (replayedCount + 1)
                 (saveProjection sch (envs event) s projectionName (e_aggregate_id event)
                    projectedData (e_id event))
          else replay_events sch envs projectionName projection rest replayedCount s)"

definition replay ::
  "schema \<Rightarrow> env \<Rightarrow> (event_row \<Rightarrow> env) \<Rightarrow> (string \<times> projection) list \<Rightarrow> store \<Rightarrow> string \<Rightarrow> int option
     \<Rightarrow> replay_response \<times> store" where
  "replay sch env envs registry s projectionName body_fromSequence =
     (let fromSequence = (case body_fromSequence of None \<Rightarrow> 1 | Some n \<Rightarrow> if n = 0 then 1 else n) in
      case map_of registry projectionName of
        None \<Rightarrow> (ProjectionNotFound, s)
      | Some projection \<Rightarrow>
          if \<not> db_up env then (InternalServerError, s)
          else
            (case replay_events sch envs projectionName projection
                    (sort_key e_sequence_number
                       (filter (\<lambda>e. e_sequence_number e \<ge> fromSequence
                                  \<and> e_event_type e \<in> set (eventTypes projection)) (events s)))
                    0 s of
               (Inl error, s') \<Rightarrow> (InternalServerError, s')
             | (Inr replayedCount, s') \<Rightarrow> (ReplayCompleted replayedCount, s')))"


subsection \<open>Concrete inputs\<close>

text \<open>
  Two readings of the environment, payloads, rows and stores used where a property is
  evaluated on an input. \<open>keyed_schema\<close> differs from \<open>createTables\<close> by a unique index
  on projections (projection_name, aggregate_id).
\<close>

definition example_dateString :: "json \<Rightarrow> string" where
  "example_dateString v = (case v of JStr s \<Rightarrow> take 10 s | _ \<Rightarrow> ''Invalid Date'')"

definition env_a :: env where
  "env_a = \<lparr>db_up = True, broker_up = True, uuid_event = ''e-a'',
     uuid_projection = (\<lambda>n. ''p-a-'' @ n), now_iso = ''2024-01-01T10:00:00.000Z'',
     today = ''2024-01-01'', dateString = example_dateString, db_now = 1000\<rparr>"

definition env_b :: env where
  "env_b = \<lparr>db_up = True, broker_up = True, uuid_event = ''e-b'',
     uuid_projection = (\<lambda>n. ''p-b-'' @ n), now_iso = ''2024-01-02T09:30:00.000Z'',
     today = ''2024-01-02'', dateString = example_dateString, db_now = 2000\<rparr>"

definition keyed_schema :: schema where
  "keyed_schema = \<lparr>unique_events_version = False, unique_projections_key = True\<rparr>"

definition user_1_created :: json where
  "user_1_created = JObj [(''userId'', JNum 1), (''email'', JStr ''ana@example.org''),
     (''firstName'', JStr ''Ana''), (''lastName'', JStr ''Paz''),
     (''timestamp'', JStr ''2024-01-01T09:59:59.000Z'')]"

definition user_1_login :: json where
  "user_1_login = JObj [(''userId'', JNum 1), (''timestamp'', JStr ''2024-01-01T10:00:00.000Z'')]"

definition message_1 :: json where
  "message_1 = JObj [(''id'', JStr ''m1''), (''timestamp'', JStr ''2024-01-01T10:00:00.000Z'')]"

definition login_row :: "string \<Rightarrow> event_row" where
  "login_row uuid = \<lparr>e_id = uuid, e_aggregate_id = ''user-1'', e_aggregate_type = ''User'',
     e_event_type = ''user.login'', e_event_version = 1, e_event_data = user_1_login,
     e_metadata = JObj [(''id'', JStr ''m1''), (''timestamp'', JStr ''2024-01-01T10:00:00.000Z''),
                        (''source'', JStr ''message-broker''), (''correlationId'', JStr ''m1'')],
     e_timestamp = 0, e_sequence_number = 0\<rparr>"


definition snapshot :: "string \<Rightarrow> string \<Rightarrow> string \<Rightarrow> json \<Rightarrow> projection_row" where
  "snapshot uuid projectionName aggregateId data =
     \<lparr>p_id = uuid, p_projection_name = projectionName, p_aggregate_id = aggregateId,
      p_data = data, p_version = 1, p_last_event_id = ''e-0'', p_updated_at = 500\<rparr>"

definition two_snapshots :: store where
  "two_snapshots = empty_store\<lparr>projections :=
     [snapshot ''p-2'' ''user-summary'' ''user-2'' (JObj [(''loginCount'', JNum 0)]),
      snapshot ''p-1'' ''user-summary'' ''user-1'' (JObj [(''loginCount'', JNum 3)])]\<rparr>"

definition global_store :: store where
  "global_store = empty_store\<lparr>projections :=
     [snapshot ''p-g'' ''analytics'' ''global'' (JObj [(''totalUsers'', JNum 7)])]\<rparr>"

subsection \<open>Notions used to state the properties\<close>



definition broken :: projection where
  "broken = \<lparr>name = ''broken'', eventTypes = [''user.created'', ''user.login''],
     project = (\<lambda>env s eventType eventData aggregateId. Inl TypeError)\<rparr>"

text \<open>
  The update of one registry entry fails for an event, in a given store, when
  \<^verbatim>\<open>project\<close> throws, or when it returns a truthy snapshot and the statement of
  \<^verbatim>\<open>saveProjection\<close> is rejected.
\<close>

definition update_fails ::
  "schema \<Rightarrow> env \<Rightarrow> store \<Rightarrow> string \<times> projection \<Rightarrow> string \<Rightarrow> json \<Rightarrow> string \<Rightarrow> string \<Rightarrow> bool" where
  "update_fails sch env s entry eventType eventData eventId aggregateId =
     (case project (snd entry) env s eventType eventData aggregateId of
        Inl error \<Rightarrow> True
      | Inr projectedData \<Rightarrow>
          truthy projectedData \<and>
          isl (upsert_projection sch env s (fst entry) aggregateId projectedData eventId))"


definition silent :: projection where
  "silent = \<lparr>name = ''silent'', eventTypes = [''user.created'', ''user.login''],
     project = (\<lambda>env s eventType eventData aggregateId. Inr JNull)\<rparr>"

section \<open>Properties of the circuit breaker\<close>

lemma calls_length: "calls cb request cs w = (rs, cb', w') \<Longrightarrow> length rs = length cs"
  by (induction cs arbitrary: cb w rs) (auto simp: Let_def split: prod.splits)

lemma call_config:
  "failureThreshold (breaker_after (call cb request args now later w)) = failureThreshold cb \<and>
   successThreshold (breaker_after (call cb request args now later w)) = successThreshold cb \<and>
   timeout (breaker_after (call cb request args now later w)) = timeout cb"
  by (simp add: call_def onSuccess_def onFailure_def Let_def split: prod.splits sum.splits)

lemma call_rejected:
  "state cb = OPEN \<Longrightarrow> now < nextAttempt cb \<Longrightarrow>
   call cb request args now later w =
     \<lparr>returned = Inl CircuitOpen, breaker_after = cb, announced = [], world_after = w\<rparr>"
  by (simp add: call_def)

lemma call_attempted:
  "\<not> (state cb = OPEN \<and> now < nextAttempt cb) \<Longrightarrow>
   world_after (call cb request args now later w) = snd (request args w) \<and>
   returned (call cb request args now later w) = map_sum RequestError id (fst (request args w))"
  by (auto simp add: call_def onSuccess_def onFailure_def Let_def split: prod.splits sum.splits)

lemma call_closed_failure:
  assumes "state cb = CLOSED" "is_failure (returned (call cb request args now later w))"
  shows "breaker_after (call cb request args now later w) =
           (if failureCount cb + 1 \<ge> failureThreshold cb
            then cb\<lparr>failureCount := failureCount cb + 1, state := OPEN, nextAttempt := later + timeout cb\<rparr>
            else cb\<lparr>failureCount := failureCount cb + 1\<rparr>)"
  using assms
  by (auto simp add: call_def onSuccess_def onFailure_def Let_def is_failure_def split: prod.splits sum.splits)

lemma closed_failures_below:
  "state cb = CLOSED \<Longrightarrow> calls cb request cs w = (rs, cb', w') \<Longrightarrow> list_all is_failure rs \<Longrightarrow>
   failureCount cb + int (length cs) < failureThreshold cb \<Longrightarrow>
   cb' = cb\<lparr>failureCount := failureCount cb + int (length cs)\<rparr>"
proof (induction cs arbitrary: cb w rs)
  case Nil
  then show ?case by simp
next
  case (Cons c cs)
  obtain args now later where c: "c = (args, now, later)" by (cases c) auto
  let ?r = "call cb request args now later w"
  obtain rs1 where rs: "rs = returned ?r # rs1"
    and run: "calls (breaker_after ?r) request cs (world_after ?r) = (rs1, cb', w')"
    using Cons.prems(2) c by (auto simp: Let_def split: prod.splits)
  have f: "is_failure (returned ?r)" and fs: "list_all is_failure rs1"
    using Cons.prems(3) rs by auto
  have b: "breaker_after ?r = cb\<lparr>failureCount := failureCount cb + 1\<rparr>"
    using call_closed_failure [OF Cons.prems(1) f] Cons.prems(4) by auto
  have "cb' = (breaker_after ?r)\<lparr>failureCount := failureCount (breaker_after ?r) + int (length cs)\<rparr>"
    by (rule Cons.IH [OF _ run fs]) (use b Cons.prems in auto)
  then show ?case using b by simp
qed


lemma calls_append:
  "calls cb request (xs @ ys) w =
     (let (rs1, cb1, w1) = calls cb request xs w;
          (rs2, cb2, w2) = calls cb1 request ys w1
      in (rs1 @ rs2, cb2, w2))"
  by (induction xs arbitrary: cb w) (auto simp: Let_def split: prod.splits)

lemma closed_failures_open:
  assumes "state cb = CLOSED" "failureCount cb = 0" "1 \<le> failureThreshold cb"
    and "calls cb request cs w = (rs, cb', w')" "list_all is_failure rs"
    and "int (length cs) = failureThreshold cb"
  shows "state cb' = OPEN \<and> nextAttempt cb' = snd (snd (last cs)) + timeout cb"
proof -
  from assms have ne: "cs \<noteq> []" by auto
  define pre where "pre = butlast cs"
  obtain args now later where l: "last cs = (args, now, later)" by (cases "last cs") auto
  have cs: "cs = pre @ [(args, now, later)]" using ne l pre_def by (metis append_butlast_last_id)
  obtain rs1 cb1 w1 where run1: "calls cb request pre w = (rs1, cb1, w1)"
    by (cases "calls cb request pre w") auto
  let ?r = "call cb1 request args now later w1"
  have rs: "rs = rs1 @ [returned ?r]" and cb': "cb' = breaker_after ?r"
    using assms(4) run1 unfolding cs calls_append by (auto simp: Let_def)
  have f1: "list_all is_failure rs1" and f: "is_failure (returned ?r)"
    using assms(5) rs by auto
  have len: "int (length pre) = failureThreshold cb - 1" using assms(6) cs by simp
  have cb1: "cb1 = cb\<lparr>failureCount := failureCount cb + int (length pre)\<rparr>"
    by (rule closed_failures_below [OF assms(1) run1 f1]) (use len assms(2) in simp)
  have "state cb1 = CLOSED" using cb1 assms(1) by simp
  from call_closed_failure [OF this f] cb1 len assms(2) cb' l show ?thesis by simp
qed

lemma open_rejects_all:
  "state cb = OPEN \<Longrightarrow> list_all (\<lambda>(args, now, later). now < nextAttempt cb) cs \<Longrightarrow>
   calls cb request cs w = (replicate (length cs) (Inl CircuitOpen), cb, w)"
  by (induction cs) (auto simp: call_rejected)

lemma open_probe:
  assumes "state cb = OPEN" "nextAttempt cb \<le> now"
  shows "call cb request args now later w =
           (call (cb\<lparr>state := HALF_OPEN, successCount := 0\<rparr>) request args now later w)
             \<lparr>announced := HALF_OPEN #
                announced (call (cb\<lparr>state := HALF_OPEN, successCount := 0\<rparr>) request args now later w)\<rparr>"
  using assms by (auto simp add: call_def Let_def split: prod.splits sum.splits)

lemma half_open_failure:
  assumes "state cb = HALF_OPEN" "is_failure (returned (call cb request args now later w))"
  shows "breaker_after (call cb request args now later w) =
           cb\<lparr>failureCount := failureCount cb + 1, state := OPEN, nextAttempt := later + timeout cb\<rparr>
         \<and> announced (call cb request args now later w) = [OPEN]"
  using assms
  by (auto simp add: call_def onSuccess_def onFailure_def Let_def is_failure_def split: prod.splits sum.splits)

lemma half_open_success:
  assumes "state cb = HALF_OPEN" "is_success (returned (call cb request args now later w))"
  shows "breaker_after (call cb request args now later w) =
           (if successCount cb + 1 \<ge> successThreshold cb
            then cb\<lparr>failureCount := 0, successCount := 0, state := CLOSED\<rparr>
            else cb\<lparr>failureCount := 0, successCount := successCount cb + 1\<rparr>)"
  using assms
  by (auto simp add: call_def onSuccess_def onFailure_def Let_def is_success_def split: prod.splits sum.splits)

lemma closed_success:
  assumes "state cb = CLOSED" "is_success (returned (call cb request args now later w))"
  shows "breaker_after (call cb request args now later w) = cb\<lparr>failureCount := 0\<rparr>"
  using assms
  by (auto simp add: call_def onSuccess_def onFailure_def Let_def is_success_def split: prod.splits sum.splits)

lemma closed_successes:
  "state cb = CLOSED \<Longrightarrow> calls cb request cs w = (rs, cb', w') \<Longrightarrow> list_all is_success rs \<Longrightarrow>
   cb' = (if cs = [] then cb else cb\<lparr>failureCount := 0\<rparr>)"
proof (induction cs arbitrary: cb w rs)
  case Nil
  then show ?case by simp
next
  case (Cons c cs)
  obtain args now later where c: "c = (args, now, later)" by (cases c) auto
  let ?r = "call cb request args now later w"
  obtain rs1 where rs: "rs = returned ?r # rs1"
    and run: "calls (breaker_after ?r) request cs (world_after ?r) = (rs1, cb', w')"
    using Cons.prems(2) c by (auto simp: Let_def split: prod.splits)
  have f: "is_success (returned ?r)" and fs: "list_all is_success rs1"
    using Cons.prems(3) rs by auto
  have b: "breaker_after ?r = cb\<lparr>failureCount := 0\<rparr>"
    using closed_success [OF Cons.prems(1) f] .
  have "cb' = (if cs = [] then breaker_after ?r else (breaker_after ?r)\<lparr>failureCount := 0\<rparr>)"
    by (rule Cons.IH [OF _ run fs]) (use b Cons.prems in auto)
  then show ?case using b by simp
qed

lemma half_open_successes:
  "state cb = HALF_OPEN \<Longrightarrow> calls cb request cs w = (rs, cb', w') \<Longrightarrow> list_all is_success rs \<Longrightarrow>
   cs \<noteq> [] \<Longrightarrow>
   cb' = (if successCount cb + int (length cs) \<ge> successThreshold cb
          then cb\<lparr>failureCount := 0, successCount := 0, state := CLOSED\<rparr>
          else cb\<lparr>failureCount := 0, successCount := successCount cb + int (length cs)\<rparr>)"
proof (induction cs arbitrary: cb w rs)
  case Nil
  then show ?case by simp
next
  case (Cons c cs)
  obtain args now later where c: "c = (args, now, later)" by (cases c) auto
  let ?r = "call cb request args now later w"
  obtain rs1 where rs: "rs = returned ?r # rs1"
    and run: "calls (breaker_after ?r) request cs (world_after ?r) = (rs1, cb', w')"
    using Cons.prems(2) c by (auto simp: Let_def split: prod.splits)
  have f: "is_success (returned ?r)" and fs: "list_all is_success rs1"
    using Cons.prems(3) rs by auto
  note b = half_open_success [OF Cons.prems(1) f]
  show ?case
  proof (cases "successCount cb + 1 \<ge> successThreshold cb")
    case True
    then have b': "breaker_after ?r = cb\<lparr>failureCount := 0, successCount := 0, state := CLOSED\<rparr>"
      using b by simp
    then have "state (breaker_after ?r) = CLOSED" by simp
    from closed_successes [OF this run fs] b' True show ?thesis by auto
  next
    case False
    then have b': "breaker_after ?r = cb\<lparr>failureCount := 0, successCount := successCount cb + 1\<rparr>"
      using b by simp
    show ?thesis
    proof (cases "cs = []")
      case True
      then show ?thesis using run b' False by simp
    next
      case ne: False
      have "state (breaker_after ?r) = HALF_OPEN" using b' Cons.prems(1) by simp
      from Cons.IH [OF this run fs ne] b' show ?thesis by (auto simp: algebra_simps)
    qed
  qed
qed


lemma calls_take:
  "calls cb request cs w = (rs, cb', w') \<Longrightarrow>
   \<exists>cbk wk. calls cb request (take k cs) w = (take k rs, cbk, wk)"
proof -
  assume run: "calls cb request cs w = (rs, cb', w')"
  obtain rs1 cb1 w1 where r1: "calls cb request (take k cs) w = (rs1, cb1, w1)"
    by (cases "calls cb request (take k cs) w") auto
  obtain rs2 cb2 w2 where r2: "calls cb1 request (drop k cs) w1 = (rs2, cb2, w2)"
    by (cases "calls cb1 request (drop k cs) w1") auto
  have "calls cb request (take k cs @ drop k cs) w = (rs1 @ rs2, cb2, w2)"
    unfolding calls_append using r1 r2 by simp
  then have rs: "rs = rs1 @ rs2" using run by simp
  have "length rs1 = length (take k cs)" using r1 by (rule calls_length)
  moreover have "length rs = length cs" using run by (rule calls_length)
  ultimately have "take k rs = rs1" using rs by (simp add: min_def split: if_splits)
  then show ?thesis using r1 by simp
qed

text \<open>
  Claim C3. A breaker that is CLOSED with no failure counted (as the constructor and
  \<^verbatim>\<open>reset\<close> leave it) and whose \<open>failureThreshold\<close> is at least 1 stays CLOSED during
  the first \<open>failureThreshold - 1\<close> consecutive failures of the request and is OPEN after
  the \<open>failureThreshold\<close>-th, with \<open>nextAttempt\<close> the clock at that failure plus
  \<open>timeout\<close>. An OPEN breaker answers every call entered before \<open>nextAttempt\<close> with
  \<open>CircuitOpen\<close>, without running the request (the world is unchanged) and without
  changing itself. A call entered at or after \<open>nextAttempt\<close> announces HALF_OPEN and is
  the call of the breaker in state HALF_OPEN with \<open>successCount\<close> 0: the request runs
  on the world and its outcome is what the caller gets.
\<close>

theorem breaker_opens_rejects_probes:
  fixes cb ob :: breaker
    and request :: "'a \<Rightarrow> 'w \<Rightarrow> ('e + 'r) \<times> 'w"
  assumes closed: "state cb = CLOSED" "failureCount cb = 0" "1 \<le> failureThreshold cb"
    and run: "calls cb request cs w = (rs, cb', w')"
    and fails: "list_all is_failure rs"
    and count: "int (length cs) = failureThreshold cb"
    and opened: "state ob = OPEN"
    and early: "list_all (\<lambda>(args, now, later). now < nextAttempt ob) es"
    and due: "nextAttempt ob \<le> now"
  shows "(\<forall>k < length cs. state (fst (snd (calls cb request (take k cs) w))) = CLOSED)
       \<and> state cb' = OPEN
       \<and> nextAttempt cb' = snd (snd (last cs)) + timeout cb
       \<and> calls ob request es v = (replicate (length es) (Inl CircuitOpen), ob, v)
       \<and> (let h = call (ob\<lparr>state := HALF_OPEN, successCount := 0\<rparr>) request args now later v;
               r = call ob request args now later v
          in r = h\<lparr>announced := HALF_OPEN # announced h\<rparr>
           \<and> world_after r = snd (request args v)
           \<and> returned r = map_sum RequestError id (fst (request args v)))"
proof -
  have a: "state (fst (snd (calls cb request (take k cs) w))) = CLOSED" if k: "k < length cs" for k
  proof -
    obtain cbk wk where rk: "calls cb request (take k cs) w = (take k rs, cbk, wk)"
      using calls_take [OF run] by blast
    have fk: "list_all is_failure (take k rs)"
      using fails by (auto simp: list_all_iff dest: in_set_takeD)
    have "cbk = cb\<lparr>failureCount := failureCount cb + int (length (take k cs))\<rparr>"
      by (rule closed_failures_below [OF closed(1) rk fk]) (use k closed(2) count in simp)
    then show ?thesis using rk closed(1) by simp
  qed
  have b: "state cb' = OPEN \<and> nextAttempt cb' = snd (snd (last cs)) + timeout cb"
    using closed run fails count by (rule closed_failures_open)
  have c: "calls ob request es v = (replicate (length es) (Inl CircuitOpen), ob, v)"
    using opened early by (rule open_rejects_all)
  have n: "\<not> (state ob = OPEN \<and> now < nextAttempt ob)" using due by simp
  show ?thesis
    using a b c open_probe [OF opened due, of request args later v]
      call_attempted [OF n, of request args later v]
    by (simp add: Let_def)
qed

theorem breaker_opens_rejects_probes_witness:
  "let cb = new_CircuitBreaker no_options 1000;
       request = (\<lambda>(a :: unit) (w :: nat). (Inl ''down'' :: string + unit, Suc w));
       cs = [((), 1001, 1002), ((), 1003, 1004), ((), 1005, 1006), ((), 1007, 1008), ((), 1009, 1010)];
       (rs, ob, w') = calls cb request cs 0;
       es = [((), 2000, 2001), ((), 61009, 61011)]
   in state cb = CLOSED \<and> failureCount cb = 0 \<and> failureThreshold cb = 5
    \<and> list_all is_failure rs \<and> w' = 5
    \<and> state ob = OPEN \<and> nextAttempt ob = 61010
    \<and> calls ob request es w' = ([Inl CircuitOpen, Inl CircuitOpen], ob, 5)
    \<and> world_after (call ob request () 61010 61020 w') = 6
    \<and> announced (call ob request () 61010 61020 w') = [HALF_OPEN, OPEN]
    \<and> nextAttempt (breaker_after (call ob request () 61010 61020 w')) = 121020"
proof -
  define cb where "cb = new_CircuitBreaker no_options 1000"
  define request where "request = (\<lambda>(a :: unit) (w :: nat). (Inl ''down'' :: string + unit, Suc w))"
  define cs :: "(unit \<times> int \<times> int) list" where
    "cs = [((), 1001, 1002), ((), 1003, 1004), ((), 1005, 1006), ((), 1007, 1008), ((), 1009, 1010)]"
  define ob where "ob = cb\<lparr>failureCount := 5, state := OPEN, nextAttempt := 61010\<rparr>"
  define es :: "(unit \<times> int \<times> int) list" where "es = [((), 2000, 2001), ((), 61009, 61011)]"
  define rs :: "(string cb_error + unit) list" where "rs = replicate 5 (Inl (RequestError ''down''))"
  have cbv: "cb = \<lparr>state = CLOSED, failureCount = 0, successCount = 0, nextAttempt = 1000,
      failureThreshold = 5, successThreshold = 2, timeout = 60000, monitoringPeriod = 10000\<rparr>"
    by (simp add: cb_def new_CircuitBreaker_def no_options_def or_default_def)
  have run: "calls cb request cs 0 = (rs, ob, 5)"
    by (simp add: cbv ob_def cs_def rs_def request_def call_def onFailure_def Let_def numeral_eq_Suc)
  have h1: "state cb = CLOSED" "failureCount cb = 0" "1 \<le> failureThreshold cb"
    by (simp_all add: cbv)
  have h2: "list_all is_failure rs" by (simp add: rs_def is_failure_def numeral_eq_Suc)
  have h3: "int (length cs) = failureThreshold cb" by (simp add: cs_def cbv)
  have h4: "state ob = OPEN" by (simp add: ob_def)
  have h5: "list_all (\<lambda>(args, now, later). now < nextAttempt ob) es" by (simp add: es_def ob_def)
  have h6: "nextAttempt ob \<le> 61010" by (simp add: ob_def)
  note t = breaker_opens_rejects_probes [OF h1 run h2 h3 h4 h5 h6, of 5 "()" 61020]
  have e: "call (ob\<lparr>state := HALF_OPEN, successCount := 0\<rparr>) request () 61010 61020 5
         = \<lparr>returned = Inl (RequestError ''down''),
            breaker_after = ob\<lparr>state := OPEN, successCount := 0, failureCount := 6, nextAttempt := 121020\<rparr>,
            announced = [OPEN], world_after = 6\<rparr>"
    by (simp add: ob_def cbv request_def call_def onFailure_def Let_def)
  from t e have "calls ob request es 5 = ([Inl CircuitOpen, Inl CircuitOpen], ob, 5)
    \<and> world_after (call ob request () 61010 61020 5) = 6
    \<and> announced (call ob request () 61010 61020 5) = [HALF_OPEN, OPEN]
    \<and> nextAttempt (breaker_after (call ob request () 61010 61020 5)) = 121020"
    by (simp add: Let_def es_def request_def numeral_eq_Suc)
  moreover have "nextAttempt ob = 61010" by (simp add: ob_def)
  ultimately show ?thesis
    using h1 h2 h4 run cbv
    unfolding cb_def [symmetric] request_def [symmetric] cs_def [symmetric] es_def [symmetric] Let_def
    by simp
qed


text \<open>
  Claim C4. In HALF_OPEN one failed call puts the breaker in OPEN, whatever the failure count,
  with \<open>nextAttempt\<close> the clock at the failure plus \<open>timeout\<close>. In HALF_OPEN with
  \<open>successThreshold\<close> at least 1, the breaker stays HALF_OPEN while the successes counted
  are fewer than \<open>successThreshold\<close>, and after \<open>successThreshold\<close> consecutive
  successful calls it is CLOSED with \<open>failureCount\<close> and \<open>successCount\<close> both 0.
\<close>

theorem half_open_strike_and_recovery:
  fixes cb hb :: breaker
    and request probe :: "'a \<Rightarrow> 'w \<Rightarrow> ('e + 'r) \<times> 'w"
  assumes half: "state cb = HALF_OPEN"
    and strike: "is_failure (returned (call cb request args now later w))"
    and probing: "state hb = HALF_OPEN" "0 \<le> successCount hb" "1 \<le> successThreshold hb"
    and run: "calls hb probe cs v = (rs, hb', v')"
    and succeeds: "list_all is_success rs"
    and count: "int (length cs) = successThreshold hb"
  shows "state (breaker_after (call cb request args now later w)) = OPEN
       \<and> nextAttempt (breaker_after (call cb request args now later w)) = later + timeout cb
       \<and> announced (call cb request args now later w) = [OPEN]
       \<and> (\<forall>k < length cs. successCount hb + int k < successThreshold hb \<longrightarrow>
            state (fst (snd (calls hb probe (take k cs) v))) = HALF_OPEN)
       \<and> state hb' = CLOSED \<and> failureCount hb' = 0 \<and> successCount hb' = 0"
proof -
  have a: "state (breaker_after (call cb request args now later w)) = OPEN
       \<and> nextAttempt (breaker_after (call cb request args now later w)) = later + timeout cb
       \<and> announced (call cb request args now later w) = [OPEN]"
    using half_open_failure [OF half strike] by simp
  have b: "state (fst (snd (calls hb probe (take k cs) v))) = HALF_OPEN"
    if k: "k < length cs" and below: "successCount hb + int k < successThreshold hb" for k
  proof (cases "k = 0")
    case True
    then show ?thesis using probing(1) by simp
  next
    case False
    obtain hbk vk where rk: "calls hb probe (take k cs) v = (take k rs, hbk, vk)"
      using calls_take [OF run] by blast
    have sk: "list_all is_success (take k rs)"
      using succeeds by (auto simp: list_all_iff dest: in_set_takeD)
    have ne: "take k cs \<noteq> []" using False k by auto
    have len: "length (take k cs) = k" using k by simp
    from half_open_successes [OF probing(1) rk sk ne] below probing(1) rk
    show ?thesis unfolding len by simp
  qed
  have ne: "cs \<noteq> []" using count probing(3) by auto
  have c: "state hb' = CLOSED \<and> failureCount hb' = 0 \<and> successCount hb' = 0"
    using half_open_successes [OF probing(1) run succeeds ne] probing(2) count by simp
  show ?thesis using a b c by simp
qed

theorem half_open_strike_and_recovery_witness:
  "let hb = (new_CircuitBreaker no_options 0)\<lparr>state := HALF_OPEN, failureCount := 5, nextAttempt := 60000\<rparr>;
       failing = (\<lambda>(a :: unit) (w :: nat). (Inl ''down'' :: string + nat, Suc w));
       working = (\<lambda>(a :: unit) (w :: nat). (Inr w :: string + nat, Suc w));
       struck = call hb failing () 60000 60007 0;
       (rs, hb', v') = calls hb working [((), 60000, 60001), ((), 60002, 60003)] 0
   in state hb = HALF_OPEN \<and> successCount hb = 0 \<and> successThreshold hb = 2
    \<and> returned struck = Inl (RequestError ''down'')
    \<and> state (breaker_after struck) = OPEN \<and> nextAttempt (breaker_after struck) = 120007
    \<and> announced struck = [OPEN]
    \<and> rs = [Inr 0, Inr 1]
    \<and> state (fst (snd (calls hb working [((), 60000, 60001)] 0))) = HALF_OPEN
    \<and> state hb' = CLOSED \<and> failureCount hb' = 0 \<and> successCount hb' = 0"
proof -
  define hb where
    "hb = (new_CircuitBreaker no_options 0)\<lparr>state := HALF_OPEN, failureCount := 5, nextAttempt := 60000\<rparr>"
  define failing where "failing = (\<lambda>(a :: unit) (w :: nat). (Inl ''down'' :: string + nat, Suc w))"
  define working where "working = (\<lambda>(a :: unit) (w :: nat). (Inr w :: string + nat, Suc w))"
  define cs :: "(unit \<times> int \<times> int) list" where "cs = [((), 60000, 60001), ((), 60002, 60003)]"
  have hbv: "hb = \<lparr>state = HALF_OPEN, failureCount = 5, successCount = 0, nextAttempt = 60000,
      failureThreshold = 5, successThreshold = 2, timeout = 60000, monitoringPeriod = 10000\<rparr>"
    by (simp add: hb_def new_CircuitBreaker_def no_options_def or_default_def)
  have ret: "returned (call hb failing () 60000 60007 0) = Inl (RequestError ''down'')"
    by (simp add: hbv failing_def call_def onFailure_def Let_def)
  have run: "calls hb working cs 0 =
      ([Inr 0, Inr 1], hb\<lparr>failureCount := 0, successCount := 0, state := CLOSED\<rparr>, 2)"
    by (simp add: hbv cs_def working_def call_def onSuccess_def Let_def numeral_eq_Suc)
  have h1: "state hb = HALF_OPEN" by (simp add: hbv)
  have h2: "is_failure (returned (call hb failing () 60000 60007 0))"
    by (simp add: ret is_failure_def)
  have h3: "0 \<le> successCount hb" "1 \<le> successThreshold hb" by (simp_all add: hbv)
  have h4: "list_all is_success [Inr 0, Inr 1 :: string cb_error + nat]" by (simp add: is_success_def)
  have h5: "int (length cs) = successThreshold hb" by (simp add: cs_def hbv)
  note t = half_open_strike_and_recovery [OF h1 h2 h1 h3 run h4 h5]
  have pre: "take (Suc 0) cs = [((), 60000, 60001)]" by (simp add: cs_def)
  from t have all: "\<forall>k < length cs. successCount hb + int k < successThreshold hb \<longrightarrow>
      state (fst (snd (calls hb working (take k cs) 0))) = HALF_OPEN"
    by blast
  have "Suc 0 < length cs" "successCount hb + int (Suc 0) < successThreshold hb"
    by (simp_all add: cs_def hbv)
  with all have "state (fst (snd (calls hb working (take (Suc 0) cs) 0))) = HALF_OPEN"
    by blast
  then have mid: "state (fst (snd (calls hb working [((), 60000, 60001)] 0))) = HALF_OPEN"
    unfolding pre .
  from t have rest: "state (breaker_after (call hb failing () 60000 60007 0)) = OPEN
      \<and> nextAttempt (breaker_after (call hb failing () 60000 60007 0)) = 120007
      \<and> announced (call hb failing () 60000 60007 0) = [OPEN]"
    by (simp add: hbv)
  show ?thesis
    using rest mid ret run h1 hbv
    unfolding hb_def [symmetric] failing_def [symmetric] working_def [symmetric] cs_def [symmetric] Let_def
    by simp
qed

section \<open>Properties of the event store\<close>

subsection \<open>What the steps leave unchanged\<close>

lemma upsert_projection_frame:
  "upsert_projection sch env s n a d i = Inr s' \<Longrightarrow>
   events s' = events s \<and> next_sequence s' = next_sequence s \<and> published s' = published s"
  by (auto simp: upsert_projection_def split: if_splits)

lemma saveProjection_frame:
  "events (saveProjection sch env s n a d i) = events s \<and>
   next_sequence (saveProjection sch env s n a d i) = next_sequence s \<and>
   published (saveProjection sch env s n a d i) = published s"
  by (auto simp: saveProjection_def split: sum.splits dest: upsert_projection_frame)

lemma updateProjections_frame:
  "events (updateProjections sch env reg et ed eid aid aty s) = events s \<and>
   next_sequence (updateProjections sch env reg et ed eid aid aty s) = next_sequence s \<and>
   published (updateProjections sch env reg et ed eid aid aty s) = published s"
  by (induction reg arbitrary: s) (auto simp: saveProjection_frame split: sum.splits)

lemma updateProjections_append:
  "updateProjections sch env (xs @ ys) et ed eid aid aty s =
   updateProjections sch env ys et ed eid aid aty (updateProjections sch env xs et ed eid aid aty s)"
  by (induction xs arbitrary: s) auto

lemma commitEvent_events:
  "events (commitEvent sch env reg s ed row) =
     (case insert_event sch env s row of
        Inl e \<Rightarrow> events s
      | Inr s1 \<Rightarrow> events s @ [row\<lparr>e_timestamp := db_now env, e_sequence_number := next_sequence s\<rparr>])"
  by (auto simp: commitEvent_def insert_event_def publish_def updateProjections_frame Let_def
      split: sum.splits if_splits)

lemma prepareEvent_row:
  "prepareEvent env s et ed md = Inr row \<Longrightarrow>
   e_event_version row = select_max_version s (e_aggregate_id row) (e_aggregate_type row) + 1
   \<and> extractAggregateId et ed = Inr (e_aggregate_id row)
   \<and> e_aggregate_type row = extractAggregateType et \<and> e_event_type row = et
   \<and> e_event_data row = jsonb ed \<and> e_id row = uuid_event env"
  by (auto simp: prepareEvent_def Let_def split: sum.splits if_splits)








lemmas eval_defs =
  prepareEvent_def commitEvent_def storeEvent_def insert_event_def publish_def
  extractAggregateId_def extractors_def extractAggregateType_def typeMap_def nullish_def
  select_max_version_def event_metadata_def object_def show_int_def digits.simps Let_def
  saveProjection_def upsert_projection_def getProjection_def has_key_def js_or_def js_plus_def
  setupProjections_def user_summary_def order_summary_def analytics_def analytics_initial_def
  createTables_def keyed_schema_def empty_store_def env_a_def env_b_def example_dateString_def
  user_1_created_def user_1_login_def message_1_def login_row_def

subsection \<open>Versions of an aggregate\<close>


lemma append_versions_example:
  "map (\<lambda>e. (e_aggregate_id e, e_event_type e, e_event_version e, e_sequence_number e))
     (events (storeEvents createTables setupProjections empty_store
        [(env_a, ''user.created'', user_1_created, message_1),
         (env_b, ''user.login'', user_1_login, message_1)]))
   = [(''user-1'', ''user.created'', 1, 1), (''user-1'', ''user.login'', 2, 2)]"
  by (simp add: eval_defs)

subsection \<open>Concurrent appends\<close>


lemma prepare_a: "prepareEvent env_a empty_store ''user.login'' user_1_login message_1 = Inr (login_row ''e-a'')"
  by (simp add: prepareEvent_def extractAggregateId_def extractors_def extractAggregateType_def
      typeMap_def nullish_def user_1_login_def message_1_def login_row_def env_a_def empty_store_def
      select_max_version_def event_metadata_def object_def show_int_def digits.simps Let_def)






subsection \<open>Failures while projecting\<close>

text \<open>
  Claim C5. When the update of one registered projection fails for an event
  (\<^verbatim>\<open>project\<close> throws, or the statement that saves its result is rejected), the loop
  ends in the same store as if that projection were not registered: the projections
  before and after it are updated all the same. And once the INSERT of the event has
  succeeded, the event row is in the store after \<^verbatim>\<open>storeEvent\<close> has finished, whatever
  the registered projections do, also when every one of them throws.
\<close>

theorem projection_failure_is_contained:
  assumes "update_fails sch env
             (updateProjections sch env before eventType eventData eventId aggregateId aggregateType s)
             (n, p) eventType eventData eventId aggregateId"
    and "insert_event sch env s0 row = Inr s1"
  shows "updateProjections sch env (before @ (n, p) # after) eventType eventData eventId aggregateId aggregateType s
           = updateProjections sch env (before @ after) eventType eventData eventId aggregateId aggregateType s
       \<and> events (commitEvent sch env registry s0 payload row) = events s1
       \<and> events s1 = events s0 @ [row\<lparr>e_timestamp := db_now env, e_sequence_number := next_sequence s0\<rparr>]"
proof -
  let ?s = "updateProjections sch env before eventType eventData eventId aggregateId aggregateType s"
  have step: "(if eventType \<in> set (eventTypes p) then
          (case project p env ?s eventType eventData aggregateId of
             Inl error \<Rightarrow> ?s
           | Inr projectedData \<Rightarrow>
               if truthy projectedData
               then saveProjection sch env ?s n aggregateId projectedData eventId
               else ?s)
        else ?s) = ?s"
    using assms(1) by (auto simp: update_fails_def saveProjection_def split: sum.splits)
  have "events s1 = events s0 @ [row\<lparr>e_timestamp := db_now env, e_sequence_number := next_sequence s0\<rparr>]"
    using assms(2) by (auto simp: insert_event_def split: if_splits)
  moreover have "events (commitEvent sch env registry s0 payload row) = events s1"
    using assms(2) calculation by (simp add: commitEvent_events)
  ultimately show ?thesis using step by (simp add: updateProjections_append)
qed

theorem projection_failure_is_contained_witness:
  "update_fails keyed_schema env_a
       (updateProjections keyed_schema env_a [] ''user.created'' user_1_created ''e-a'' ''user-1'' ''User'' empty_store)
       (''broken'', broken) ''user.created'' user_1_created ''e-a'' ''user-1''
   \<and> map (\<lambda>r. (p_projection_name r, p_aggregate_id r, p_version r, p_last_event_id r))
       (projections (updateProjections keyed_schema env_a ((''broken'', broken) # setupProjections)
          ''user.created'' user_1_created ''e-a'' ''user-1'' ''User'' empty_store))
     = [(''user-summary'', ''user-1'', 1, ''e-a''), (''analytics'', ''user-1'', 1, ''e-a'')]
   \<and> map e_id (events (commitEvent keyed_schema env_a [(''broken'', broken)] empty_store
          user_1_login (login_row ''e-a''))) = [''e-a'']
   \<and> projections (commitEvent keyed_schema env_a [(''broken'', broken)] empty_store
          user_1_login (login_row ''e-a'')) = []"
proof -
  have h1: "update_fails keyed_schema env_a
       (updateProjections keyed_schema env_a [] ''user.created'' user_1_created ''e-a'' ''user-1'' ''User'' empty_store)
       (''broken'', broken) ''user.created'' user_1_created ''e-a'' ''user-1''"
    by (simp add: update_fails_def broken_def)
  have h2: "insert_event keyed_schema env_a empty_store (login_row ''e-a'') =
      Inr (empty_store\<lparr>events := [(login_row ''e-a'')\<lparr>e_timestamp := 1000, e_sequence_number := 1\<rparr>],
                       next_sequence := 2\<rparr>)"
    by (simp add: eval_defs)
  note t = projection_failure_is_contained [OF h1 h2, of setupProjections
      "[(''broken'', broken)]" user_1_login]
  have others: "map (\<lambda>r. (p_projection_name r, p_aggregate_id r, p_version r, p_last_event_id r))
       (projections (updateProjections keyed_schema env_a setupProjections
          ''user.created'' user_1_created ''e-a'' ''user-1'' ''User'' empty_store))
     = [(''user-summary'', ''user-1'', 1, ''e-a''), (''analytics'', ''user-1'', 1, ''e-a'')]"
    by (simp add: eval_defs)
  have none: "projections (commitEvent keyed_schema env_a [(''broken'', broken)] empty_store
          user_1_login (login_row ''e-a'')) = []"
    by (simp add: eval_defs broken_def)
  from t others none h1 show ?thesis by (simp add: login_row_def)
qed

subsection \<open>Snapshots on the tables as created\<close>








text \<open>
  A projection whose \<^verbatim>\<open>project\<close> returns a falsy value (\<^verbatim>\<open>null\<close>,
  \<^verbatim>\<open>undefined\<close>) for an event writes nothing: the loop ends in the same store as if
  the projection were not registered. This holds in every schema.
\<close>

theorem falsy_projection_writes_nothing:
  assumes "project p env (updateProjections sch env before eventType eventData eventId aggregateId aggregateType s)
             eventType eventData aggregateId = Inr projectedData"
    and "\<not> truthy projectedData"
  shows "updateProjections sch env (before @ (n, p) # after) eventType eventData eventId aggregateId aggregateType s
           = updateProjections sch env (before @ after) eventType eventData eventId aggregateId aggregateType s"
  using assms by (simp add: updateProjections_append)

theorem falsy_projection_writes_nothing_witness:
  "project silent env_a (updateProjections keyed_schema env_a [] ''user.created'' user_1_created ''e-a''
       ''user-1'' ''User'' empty_store) ''user.created'' user_1_created ''user-1'' = Inr JNull
   \<and> \<not> truthy JNull
   \<and> projections (updateProjections keyed_schema env_a [(''silent'', silent)]
        ''user.created'' user_1_created ''e-a'' ''user-1'' ''User'' empty_store) = []"
proof -
  have h1: "project silent env_a (updateProjections keyed_schema env_a [] ''user.created'' user_1_created
       ''e-a'' ''user-1'' ''User'' empty_store) ''user.created'' user_1_created ''user-1'' = Inr JNull"
    by (simp add: silent_def)
  have h2: "\<not> truthy JNull" by simp
  from falsy_projection_writes_nothing [OF h1 h2, of "''silent''" "[]"] h1
  show ?thesis by (simp add: empty_store_def)
qed

lemma truthy_jsonb: "truthy data \<Longrightarrow> jsonb data \<noteq> JUndefined"
  by (cases data) auto

text \<open>
  What the statement of \<^verbatim>\<open>saveProjection\<close> does in a schema that has the unique index
  on (projection_name, aggregate_id): a truthy snapshot is inserted with version 1 and the
  id of the event when no row has the key, and otherwise replaces the data of the row
  with the key, whose version is incremented and whose last event id is set.
\<close>

theorem saveProjection_upserts_when_keyed:
  assumes "unique_projections_key sch" "db_up env" "truthy data"
    and "length projectionName \<le> 100" "length aggregateId \<le> 255"
  shows "(list_ex (has_key projectionName aggregateId) (projections s) \<longrightarrow>
            projections (saveProjection sch env s projectionName aggregateId data eventId)
            = map (\<lambda>r. if has_key projectionName aggregateId r
                        then r\<lparr>p_data := jsonb data, p_version := p_version r + 1,
                               p_last_event_id := eventId, p_updated_at := db_now env\<rparr>
                        else r) (projections s))
       \<and> (\<not> list_ex (has_key projectionName aggregateId) (projections s)
            \<and> uuid_projection env projectionName \<notin> set (map p_id (projections s)) \<longrightarrow>
            projections (saveProjection sch env s projectionName aggregateId data eventId)
            = projections s @
               [\<lparr>p_id = uuid_projection env projectionName, p_projection_name = projectionName,
                 p_aggregate_id = aggregateId, p_data = jsonb data, p_version = 1,
                 p_last_event_id = eventId, p_updated_at = db_now env\<rparr>])"
  using assms truthy_jsonb [OF assms(3)]
  by (simp add: saveProjection_def upsert_projection_def)

theorem saveProjection_upserts_when_keyed_witness:
  "map (\<lambda>r. (p_projection_name r, p_aggregate_id r, p_version r, p_last_event_id r))
     (projections (saveProjection keyed_schema env_a empty_store ''user-summary'' ''user-1''
        (JObj [(''loginCount'', JNum 0)]) ''e-a''))
     = [(''user-summary'', ''user-1'', 1, ''e-a'')]
   \<and> map (\<lambda>r. (p_projection_name r, p_aggregate_id r, p_version r, p_last_event_id r))
     (projections (saveProjection keyed_schema env_b
        (saveProjection keyed_schema env_a empty_store ''user-summary'' ''user-1''
           (JObj [(''loginCount'', JNum 0)]) ''e-a'')
        ''user-summary'' ''user-1'' (JObj [(''loginCount'', JNum 1)]) ''e-b''))
     = [(''user-summary'', ''user-1'', 2, ''e-b'')]"
proof -
  let ?s1 = "saveProjection keyed_schema env_a empty_store ''user-summary'' ''user-1''
        (JObj [(''loginCount'', JNum 0)]) ''e-a''"
  have k: "unique_projections_key keyed_schema" by (simp add: keyed_schema_def)
  have a: "db_up env_a" "db_up env_b" by (simp_all add: env_a_def env_b_def)
  have t: "truthy (JObj [(''loginCount'', JNum 0)])" "truthy (JObj [(''loginCount'', JNum 1)])" by simp_all
  have l: "length ''user-summary'' \<le> 100" "length ''user-1'' \<le> 255" by simp_all
  have none: "\<not> list_ex (has_key ''user-summary'' ''user-1'') (projections empty_store)
      \<and> uuid_projection env_a ''user-summary'' \<notin> set (map p_id (projections empty_store))"
    by (simp add: empty_store_def)
  from saveProjection_upserts_when_keyed [OF k a(1) t(1) l, of empty_store "''e-a''"] none
  have s1: "projections ?s1 =
      [\<lparr>p_id = uuid_projection env_a ''user-summary'', p_projection_name = ''user-summary'',
        p_aggregate_id = ''user-1'', p_data = jsonb (JObj [(''loginCount'', JNum 0)]), p_version = 1,
        p_last_event_id = ''e-a'', p_updated_at = db_now env_a\<rparr>]"
    by (simp add: empty_store_def)
  then have some: "list_ex (has_key ''user-summary'' ''user-1'') (projections ?s1)"
    by (simp add: has_key_def)
  from saveProjection_upserts_when_keyed [OF k a(2) t(2) l, of ?s1 "''e-b''"] some
  have s2: "projections (saveProjection keyed_schema env_b ?s1 ''user-summary'' ''user-1''
        (JObj [(''loginCount'', JNum 1)]) ''e-b'')
     = map (\<lambda>r. if has_key ''user-summary'' ''user-1'' r
                        then r\<lparr>p_data := jsonb (JObj [(''loginCount'', JNum 1)]), p_version := p_version r + 1,
                               p_last_event_id := ''e-b'', p_updated_at := db_now env_b\<rparr>
                        else r) (projections ?s1)"
    by blast
  show ?thesis unfolding s2 unfolding s1 by (simp add: has_key_def)
qed

text \<open>
  Claim C6 at a concrete event. \<^verbatim>\<open>user.created\<close> for user 1 arrives on the empty store
  with the tables as created. \<^verbatim>\<open>project\<close> of user-summary returns a truthy snapshot;
  the statement of \<^verbatim>\<open>saveProjection\<close> is rejected for want of a unique index on
  (projection_name, aggregate_id); the event is stored and no snapshot row is written.
\<close>

theorem snapshot_not_written_on_created_tables:
  "map_sum id truthy (project user_summary env_a empty_store ''user.created'' user_1_created ''user-1'') = Inr True
   \<and> upsert_projection createTables env_a empty_store ''user-summary'' ''user-1''
        (JObj [(''userId'', JNum 1)]) ''e-a'' = Inl NoArbiterIndex
   \<and> map e_id (events (storeEvent createTables env_a setupProjections empty_store
        ''user.created'' user_1_created message_1)) = [''e-a'']
   \<and> projections (storeEvent createTables env_a setupProjections empty_store
        ''user.created'' user_1_created message_1) = []"
  by (simp add: eval_defs)







text \<open>
  In a schema with the unique index the snapshots are written, and then a replay at
  another reading of the clock does not reproduce the data of analytics.
\<close>

theorem replay_differs_when_keyed_example:
  "map p_data (projections (storeEvents keyed_schema setupProjections empty_store
       [(env_a, ''user.created'', user_1_created, message_1)]))
   \<noteq> map p_data (projections (snd (replay keyed_schema env_b (\<lambda>e. env_b) setupProjections
       ((storeEvents keyed_schema setupProjections empty_store
          [(env_a, ''user.created'', user_1_created, message_1)])\<lparr>projections := []\<rparr>)
       ''analytics'' (Some 1))))"
  by (simp add: eval_defs replay_def)

subsection \<open>What a projection depends on\<close>

text \<open>
  Claim C8, as stated, fails. Two invocations of \<^verbatim>\<open>project\<close> of analytics with the same
  event type, payload and aggregate id on the same store, at two readings of the clock,
  return different snapshots (\<^verbatim>\<open>lastUpdated\<close> is the clock).
\<close>

theorem analytics_project_depends_on_clock:
  "project analytics env_a empty_store ''user.created'' user_1_created ''user-1''
   \<noteq> project analytics (env_a\<lparr>now_iso := ''2024-01-02T09:30:00.000Z''\<rparr>) empty_store
       ''user.created'' user_1_created ''user-1''"
  by (simp add: eval_defs)

text \<open>
  Claim C8, amended. \<^verbatim>\<open>project\<close> of a registered projection takes no previous
  snapshot: it reads one from the projections table (user-summary and order-summary the
  row of their own name and the aggregate id, analytics the row (analytics, global)) and
  returns a value without writing. With the same readings of the environment, event
  type, payload and aggregate id, two stores that give the same snapshot to that read
  give the same result. The result of order-summary does not depend on the clock, nor
  does that of user-summary unless the event is \<^verbatim>\<open>user.created\<close> with no truthy
  timestamp in the payload; the result of analytics does.
\<close>

theorem project_reads_snapshot_and_clock:
  assumes "(n, p) \<in> set setupProjections"
    and "getProjection env s n (if n = ''analytics'' then ''global'' else aggregateId)
         = getProjection env s' n (if n = ''analytics'' then ''global'' else aggregateId)"
  shows "project p env s eventType eventData aggregateId = project p env s' eventType eventData aggregateId
       \<and> (db_up env' = db_up env \<longrightarrow>
            project order_summary env' s eventType eventData aggregateId
            = project order_summary env s eventType eventData aggregateId)
       \<and> (db_up env' = db_up env \<and> (eventType \<noteq> ''user.created'' \<or> truthy (field eventData ''timestamp'')) \<longrightarrow>
            project user_summary env' s eventType eventData aggregateId
            = project user_summary env s eventType eventData aggregateId)"
proof -
  have gp: "db_up env' = db_up env \<Longrightarrow> getProjection env' s a b = getProjection env s a b" for a b
    by (simp add: getProjection_def)
  from assms(1) consider "n = ''user-summary''" "p = user_summary"
    | "n = ''order-summary''" "p = order_summary" | "n = ''analytics''" "p = analytics"
    by (auto simp: setupProjections_def)
  then have a: "project p env s eventType eventData aggregateId = project p env s' eventType eventData aggregateId"
  proof cases
    case 1
    with assms(2) have "getProjection env s ''user-summary'' aggregateId
        = getProjection env s' ''user-summary'' aggregateId" by simp
    then show ?thesis unfolding 1 user_summary_def by (simp add: Let_def)
  next
    case 2
    with assms(2) have "getProjection env s ''order-summary'' aggregateId
        = getProjection env s' ''order-summary'' aggregateId" by simp
    then show ?thesis unfolding 2 order_summary_def by (simp add: Let_def cong: sum.case_cong)
  next
    case 3
    with assms(2) have "getProjection env s ''analytics'' ''global''
        = getProjection env s' ''analytics'' ''global''" by simp
    then show ?thesis unfolding 3 analytics_def by (simp add: Let_def)
  qed
  have b: "project order_summary env' s eventType eventData aggregateId
            = project order_summary env s eventType eventData aggregateId" if "db_up env' = db_up env"
    using gp [OF that] by (simp add: order_summary_def Let_def cong: sum.case_cong)
  have c: "project user_summary env' s eventType eventData aggregateId
            = project user_summary env s eventType eventData aggregateId"
    if "db_up env' = db_up env" "eventType \<noteq> ''user.created'' \<or> truthy (field eventData ''timestamp'')"
    using gp [OF that(1)] that(2) by (auto simp: user_summary_def Let_def js_or_def)
  show ?thesis using a b c by blast
qed

theorem project_reads_snapshot_and_clock_witness:
  "(''analytics'', analytics) \<in> set setupProjections
   \<and> getProjection env_a global_store ''analytics'' ''global''
       = getProjection env_a (global_store\<lparr>projections := projections global_store @ projections two_snapshots\<rparr>)
           ''analytics'' ''global''
   \<and> project analytics env_a
        (global_store\<lparr>projections := projections global_store @ projections two_snapshots\<rparr>)
        ''user.created'' user_1_created ''user-1''
      = Inr (JObj [(''totalUsers'', JNum 8), (''lastUpdated'', JStr ''2024-01-01T10:00:00.000Z'')])
   \<and> project order_summary env_b global_store ''order.created'' user_1_created ''user-1''
      = project order_summary env_a global_store ''order.created'' user_1_created ''user-1''
   \<and> project user_summary env_b global_store ''user.created'' user_1_created ''user-1''
      = project user_summary env_a global_store ''user.created'' user_1_created ''user-1''"
proof -
  let ?s' = "global_store\<lparr>projections := projections global_store @ projections two_snapshots\<rparr>"
  have h1: "(''analytics'', analytics) \<in> set setupProjections" by (simp add: setupProjections_def)
  have h2: "getProjection env_a global_store ''analytics'' (if ''analytics'' = ''analytics'' then ''global'' else ''user-1'')
       = getProjection env_a ?s' ''analytics'' (if ''analytics'' = ''analytics'' then ''global'' else ''user-1'')"
    by (simp add: getProjection_def global_store_def two_snapshots_def snapshot_def empty_store_def env_a_def)
  note t = project_reads_snapshot_and_clock [OF h1 h2, of "''user.created''" user_1_created env_b]
  have e: "project analytics env_a global_store ''user.created'' user_1_created ''user-1''
      = Inr (JObj [(''totalUsers'', JNum 8), (''lastUpdated'', JStr ''2024-01-01T10:00:00.000Z'')])"
    by (simp add: eval_defs global_store_def snapshot_def)
  have up: "db_up env_b = db_up env_a" by (simp add: env_a_def env_b_def)
  have ts: "truthy (field user_1_created ''timestamp'')" by (simp add: user_1_created_def)
  have o: "project order_summary env_b global_store ''order.created'' user_1_created ''user-1''
      = project order_summary env_a global_store ''order.created'' user_1_created ''user-1''"
    using project_reads_snapshot_and_clock [OF h1 h2, of "''order.created''" user_1_created env_b] up
    by blast
  from t e up ts o h1 h2 show ?thesis by simp
qed

subsection \<open>Listing the snapshots of a projection\<close>




subsection \<open>The global analytics row\<close>

lemma filter_map_other:
  assumes "\<And>r. P (f r) = P r" "\<And>r. P r \<Longrightarrow> f r = r"
  shows "filter P (map f xs) = filter P xs"
  by (induction xs) (auto simp: assms)

lemma upsert_projection_other_rows:
  assumes "upsert_projection sch env s n a d i = Inr s'" "a \<noteq> g"
  shows "filter (\<lambda>r. p_aggregate_id r = g) (projections s') = filter (\<lambda>r. p_aggregate_id r = g) (projections s)"
  using assms
  by (auto simp: upsert_projection_def has_key_def split: if_splits intro!: filter_map_other)

lemma saveProjection_other_rows:
  "a \<noteq> g \<Longrightarrow> filter (\<lambda>r. p_aggregate_id r = g) (projections (saveProjection sch env s n a d i))
     = filter (\<lambda>r. p_aggregate_id r = g) (projections s)"
  by (auto simp: saveProjection_def split: sum.splits dest: upsert_projection_other_rows)

lemma updateProjections_other_rows:
  "a \<noteq> g \<Longrightarrow> filter (\<lambda>r. p_aggregate_id r = g) (projections (updateProjections sch env reg et ed eid a aty s))
     = filter (\<lambda>r. p_aggregate_id r = g) (projections s)"
  by (induction reg arbitrary: s) (auto simp: saveProjection_other_rows split: sum.splits)

lemma extractAggregateId_not_global: "extractAggregateId et ed \<noteq> Inr ''global''"
  by (auto simp: extractAggregateId_def extractors_def split: option.splits if_splits)

lemma storeEvent_global_rows:
  "filter (\<lambda>r. p_aggregate_id r = ''global'') (projections (storeEvent sch env reg s et ed md))
     = filter (\<lambda>r. p_aggregate_id r = ''global'') (projections s)"
proof (cases "prepareEvent env s et ed md")
  case (Inl e)
  then show ?thesis by (simp add: storeEvent_def)
next
  case (Inr row)
  from prepareEvent_row [OF Inr] have ne: "e_aggregate_id row \<noteq> ''global''"
    using extractAggregateId_not_global [of et ed] by auto
  show ?thesis
  proof (cases "insert_event sch env s row")
    case (Inl e)
    then show ?thesis using Inr by (simp add: storeEvent_def commitEvent_def)
  next
    case s1: (Inr s1)
    then have p1: "projections s1 = projections s"
      by (auto simp: insert_event_def split: if_splits)
    show ?thesis using Inr s1 p1 updateProjections_other_rows [OF ne, of sch env reg "e_event_type row" ed "e_id row" "e_aggregate_type row" s1]
      by (auto simp: storeEvent_def commitEvent_def publish_def Let_def split: sum.splits if_splits)
  qed
qed

lemma getProjection_filter:
  "getProjection env s n g =
     (if \<not> db_up env then JNull
      else case filter (\<lambda>r. p_projection_name r = n) (filter (\<lambda>r. p_aggregate_id r = g) (projections s)) of
             [] \<Rightarrow> JNull | r # rows \<Rightarrow> p_data r)"
  by (simp add: getProjection_def conj_commute)

text \<open>
  Claim C10. For an event whose aggregate id is not \<^verbatim>\<open>'global'\<close>,
  \<^verbatim>\<open>updateProjections\<close> leaves the rows of (analytics, global) as they were, in every
  schema and for every registry, and \<^verbatim>\<open>getProjection('analytics', 'global')\<close> reads the
  same afterwards. \<^verbatim>\<open>extractAggregateId\<close> never yields \<^verbatim>\<open>'global'\<close>, so no
  \<^verbatim>\<open>storeEvent\<close> changes these rows.
\<close>

theorem global_analytics_row_never_written:
  assumes "aggregateId \<noteq> ''global''"
  shows "filter (\<lambda>r. p_projection_name r = ''analytics'' \<and> p_aggregate_id r = ''global'')
           (projections (updateProjections sch env registry eventType eventData eventId aggregateId aggregateType s))
         = filter (\<lambda>r. p_projection_name r = ''analytics'' \<and> p_aggregate_id r = ''global'') (projections s)
       \<and> getProjection env' (updateProjections sch env registry eventType eventData eventId aggregateId aggregateType s)
           ''analytics'' ''global'' = getProjection env' s ''analytics'' ''global''
       \<and> filter (\<lambda>r. p_projection_name r = ''analytics'' \<and> p_aggregate_id r = ''global'')
           (projections (storeEvent sch env registry s eventType payload metadata))
         = filter (\<lambda>r. p_projection_name r = ''analytics'' \<and> p_aggregate_id r = ''global'') (projections s)"
proof -
  have split: "filter (\<lambda>r. p_projection_name r = ''analytics'' \<and> p_aggregate_id r = ''global'') xs
      = filter (\<lambda>r. p_projection_name r = ''analytics'') (filter (\<lambda>r. p_aggregate_id r = ''global'') xs)"
    for xs by (simp add: conj_commute)
  note u = updateProjections_other_rows [OF assms, of sch env registry eventType eventData eventId aggregateType s]
  show ?thesis
    unfolding split getProjection_filter u storeEvent_global_rows by simp
qed

theorem global_analytics_row_never_written_witness:
  "''user-1'' \<noteq> ''global''
   \<and> map (\<lambda>r. (p_projection_name r, p_aggregate_id r, p_data r, p_version r))
       (projections (updateProjections keyed_schema env_a setupProjections ''user.created'' user_1_created
          ''e-a'' ''user-1'' ''User'' global_store))
     = [(''analytics'', ''global'', JObj [(''totalUsers'', JNum 7)], 1),
        (''user-summary'', ''user-1'', JObj
           [(''userId'', JNum 1), (''email'', JStr ''ana@example.org''), (''firstName'', JStr ''Ana''),
            (''lastName'', JStr ''Paz''), (''createdAt'', JStr ''2024-01-01T09:59:59.000Z''),
            (''lastLogin'', JNull), (''loginCount'', JNum 0)], 1),
        (''analytics'', ''user-1'', JObj
           [(''totalUsers'', JNum 8), (''lastUpdated'', JStr ''2024-01-01T10:00:00.000Z'')], 1)]
   \<and> filter (\<lambda>r. p_projection_name r = ''analytics'' \<and> p_aggregate_id r = ''global'')
       (projections (updateProjections keyed_schema env_a setupProjections ''user.created'' user_1_created
          ''e-a'' ''user-1'' ''User'' global_store))
     = projections global_store"
proof -
  have h: "''user-1'' \<noteq> ''global''" by simp
  note t = global_analytics_row_never_written [OF h, of keyed_schema env_a setupProjections
      "''user.created''" user_1_created "''e-a''" "''User''" global_store]
  have e: "map (\<lambda>r. (p_projection_name r, p_aggregate_id r, p_data r, p_version r))
       (projections (updateProjections keyed_schema env_a setupProjections ''user.created'' user_1_created
          ''e-a'' ''user-1'' ''User'' global_store))
     = [(''analytics'', ''global'', JObj [(''totalUsers'', JNum 7)], 1),
        (''user-summary'', ''user-1'', JObj
           [(''userId'', JNum 1), (''email'', JStr ''ana@example.org''), (''firstName'', JStr ''Ana''),
            (''lastName'', JStr ''Paz''), (''createdAt'', JStr ''2024-01-01T09:59:59.000Z''),
            (''lastLogin'', JNull), (''loginCount'', JNum 0)], 1),
        (''analytics'', ''user-1'', JObj
           [(''totalUsers'', JNum 8), (''lastUpdated'', JStr ''2024-01-01T10:00:00.000Z'')], 1)]"
    by (simp add: eval_defs global_store_def snapshot_def)
  have g: "filter (\<lambda>r. p_projection_name r = ''analytics'' \<and> p_aggregate_id r = ''global'')
      (projections global_store) = projections global_store"
    by (simp add: global_store_def snapshot_def empty_store_def)
  from t g e h show ?thesis by simp
qed

end
